theory Spec2Isabelle
  imports Complex_Main "HOL-Library.Log_Nat"
begin

section \<open>Values of the program\<close>

text \<open>
  The program is \<^verbatim>\<open>babbel2anki.py\<close>. What the remote service returns is parsed by
  \<^verbatim>\<open>request_object.json()\<close> into Python values: \<^verbatim>\<open>None\<close>, booleans, integers,
  strings, lists and dicts. A dict is kept as an association list in insertion order
  whose keys are distinct; a lookup takes the first binding. JSON numbers with a
  fraction or an exponent (Python floats) are outside this model.
  Strings are lists of 8-bit characters (the UTF-8 bytes of the text).
\<close>

datatype json =
    JNull
  | JBool bool
  | JInt int
  | JStr string
  | JArr "json list"
  | JObj "(string \<times> json) list"

text \<open>The exceptions that the modelled code can raise.\<close>

datatype py_error =
    ValidationError
  | KeyError string
  | TypeError
  | AttributeError
  | IndexError
  | ZeroDivisionError
  | OverflowError
  | ValueError
  | RequestException

subsection \<open>\<^verbatim>\<open>str\<close> and \<^verbatim>\<open>repr\<close>\<close>

fun str_nat :: "nat \<Rightarrow> string" where
  "str_nat n = (if n < 10 then [''0123456789'' ! n]
                else str_nat (n div 10) @ [''0123456789'' ! (n mod 10)])"

declare str_nat.simps [simp del]

definition str_int :: "int \<Rightarrow> string" where
  "str_int i = (if i < 0 then CHR ''-'' # str_nat (nat (- i)) else str_nat (nat i))"

definition hex2 :: "nat \<Rightarrow> string" where
  "hex2 n = [''0123456789abcdef'' ! (n div 16), ''0123456789abcdef'' ! (n mod 16)]"

text \<open>
  \<^verbatim>\<open>repr\<close> of a string: double quotes when the text has a single quote and no double
  quote, single quotes otherwise; the quote in use and the backslash are escaped, so are
  tab, newline, carriage return and the other control characters.
\<close>

definition repr_char :: "char \<Rightarrow> char \<Rightarrow> string" where
  "repr_char q c =
     (if c = q \<or> c = CHR 0x5C then [CHR 0x5C, c]
      else if c = CHR 0x09 then [CHR 0x5C, CHR ''t'']
      else if c = CHR 0x0A then [CHR 0x5C, CHR ''n'']
      else if c = CHR 0x0D then [CHR 0x5C, CHR ''r'']
      else if (of_char c :: nat) < 32 \<or> (of_char c :: nat) = 127
        then [CHR 0x5C, CHR ''x''] @ hex2 (of_char c)
      else [c])"

definition repr_str :: "string \<Rightarrow> string" where
  "repr_str s =
     (let q = (if CHR 0x27 \<in> set s \<and> CHR 0x22 \<notin> set s then CHR 0x22 else CHR 0x27)
      in q # concat (map (repr_char q) s) @ [q])"

fun join :: "string \<Rightarrow> string list \<Rightarrow> string" where
  "join sep [] = []"
| "join sep [x] = x"
| "join sep (x # y # ys) = x @ sep @ join sep (y # ys)"

fun py_repr :: "json \<Rightarrow> string" where
  "py_repr JNull = ''None''"
| "py_repr (JBool b) = (if b then ''True'' else ''False'')"
| "py_repr (JInt i) = str_int i"
| "py_repr (JStr s) = repr_str s"
| "py_repr (JArr xs) = ''['' @ join '', '' (map py_repr xs) @ '']''"
| "py_repr (JObj kvs) =
     ''{'' @ join '', '' (map (\<lambda>kv. repr_str (fst kv) @ '': '' @ py_repr (snd kv)) kvs) @ ''}''"

text \<open>\<^verbatim>\<open>str(x)\<close>, which is also what \<^verbatim>\<open>"{}".format(x)\<close> inserts.\<close>

fun py_str :: "json \<Rightarrow> string" where
  "py_str (JStr s) = s"
| "py_str v = py_repr v"

subsection \<open>Subscripting and assignment\<close>

text \<open>
  \<^verbatim>\<open>x[key]\<close> with a string key: a dict gives the value or raises \<^verbatim>\<open>KeyError\<close>; every
  other value raises \<^verbatim>\<open>TypeError\<close>.
\<close>

fun getitem :: "json \<Rightarrow> string \<Rightarrow> py_error + json" where
  "getitem (JObj kvs) k = (case map_of kvs k of None \<Rightarrow> Inl (KeyError k) | Some v \<Rightarrow> Inr v)"
| "getitem _ k = Inl TypeError"

fun dict_set :: "(string \<times> json) list \<Rightarrow> string \<Rightarrow> json \<Rightarrow> (string \<times> json) list" where
  "dict_set [] k v = [(k, v)]"
| "dict_set ((k', v') # kvs) k v =
     (if k' = k then (k, v) # kvs else (k', v') # dict_set kvs k v)"

fun setitem :: "json \<Rightarrow> string \<Rightarrow> json \<Rightarrow> py_error + json" where
  "setitem (JObj kvs) k v = Inr (JObj (dict_set kvs k v))"
| "setitem _ k v = Inl TypeError"

section \<open>Settings\<close>

datatype media_type = Image | Audio

text \<open>
  The source keys its tables by the strings \<^verbatim>\<open>"image"\<close> and \<^verbatim>\<open>"audio"\<close> and asserts
  in \<^verbatim>\<open>download_media_item\<close> that the kind is one of the two; \<open>media_type\<close> has no other
  value, so the assertion never fails here. A template \<^verbatim>\<open>"a{}b".format(x)\<close> is the
  function that puts \<open>py_str x\<close> between the two halves.
\<close>

definition media_urls :: "media_type \<Rightarrow> json \<Rightarrow> string" where
  "media_urls t x =
     (case t of
        Image \<Rightarrow> ''https://d3hmols351pw2y.cloudfront.net/image/400x400/'' @ py_str x @ ''.jpg''
      | Audio \<Rightarrow> ''https://d3hmols351pw2y.cloudfront.net/sound/'' @ py_str x @ ''.mp3'')"

definition anki_folder :: string where
  "anki_folder = ''/home/jsmith/Documents/Anki/JSmith''"

definition media_directory :: string where
  "media_directory = anki_folder @ ''/collection.media''"

definition media_filenames :: "media_type \<Rightarrow> json \<Rightarrow> string" where
  "media_filenames t x =
     (case t of Image \<Rightarrow> ''rus_'' @ py_str x @ ''.jpg''
              | Audio \<Rightarrow> ''rus_'' @ py_str x @ ''.mp3'')"

definition media_entries :: "media_type \<Rightarrow> string \<Rightarrow> string" where
  "media_entries t f =
     (case t of Image \<Rightarrow> ''<img src='' @ [CHR 0x22] @ f @ [CHR 0x22] @ ''>''
              | Audio \<Rightarrow> ''[sound:'' @ f @ '']'')"

definition media_id_fields :: "media_type \<Rightarrow> string" where
  "media_id_fields t = (case t of Image \<Rightarrow> ''image_id'' | Audio \<Rightarrow> ''sound_id'')"

definition media_csv_fields :: "media_type \<Rightarrow> string" where
  "media_csv_fields t = (case t of Image \<Rightarrow> ''image_path'' | Audio \<Rightarrow> ''audio_path'')"

definition csv_fieldnames :: "string list" where
  "csv_fieldnames = [''id'', ''type'', ''image_id'', ''image_path'', ''sound_id'',
                     ''audio_path'', ''l1_text'', ''l2_text'', ''info_text'']"

subsection \<open>The response schema\<close>

text \<open>
  The keywords of JSON Schema that \<^verbatim>\<open>schema\<close> uses: \<^verbatim>\<open>type\<close>, \<^verbatim>\<open>properties\<close> and
  \<^verbatim>\<open>required\<close>. The reference \<^verbatim>\<open>{"$ref": "#/definitions/review"}\<close> is the constant
  \<open>review\<close> itself. \<^verbatim>\<open>properties\<close> and \<^verbatim>\<open>required\<close> constrain objects only; a
  property that is absent is not checked; the type \<^verbatim>\<open>number\<close> does not take a boolean.
\<close>

datatype jtype = TObject | TArray | TNumber

datatype jschema =
  Schema (stype: "jtype option") (properties: "(string \<times> jschema) list") (required: "string list")

fun is_type :: "jtype \<Rightarrow> json \<Rightarrow> bool" where
  "is_type TObject (JObj _) = True"
| "is_type TArray (JArr _) = True"
| "is_type TNumber (JInt _) = True"
| "is_type _ _ = False"

fun is_valid :: "jschema \<Rightarrow> json \<Rightarrow> bool" where
  "is_valid (Schema t ps req) inst =
     ((case t of None \<Rightarrow> True | Some ty \<Rightarrow> is_type ty inst) \<and>
      (case inst of
         JObj kvs \<Rightarrow>
           list_all (\<lambda>p. case map_of kvs (fst p) of None \<Rightarrow> True
                                                  | Some v \<Rightarrow> is_valid (snd p) v) ps \<and>
           list_all (\<lambda>r. r \<in> fst ` set kvs) req
       | _ \<Rightarrow> True))"

definition review :: jschema where
  "review = Schema (Some TObject)
     [(''trainer_items'', Schema (Some TArray) [] []),
      (''total_filtered_items'', Schema (Some TNumber) [] []),
      (''per_page_limit'', Schema (Some TNumber) [] []),
      (''page'', Schema (Some TNumber) [] [])]
     [''trainer_items'', ''total_filtered_items'', ''per_page_limit'', ''page'']"

definition schema :: jschema where
  "schema = Schema (Some TObject) [(''review'', review)] []"

text \<open>\<^verbatim>\<open>jsonschema.validate(instance, schema)\<close> returns nothing or raises.\<close>

definition validate :: "json \<Rightarrow> jschema \<Rightarrow> py_error + unit" where
  "validate inst s = (if is_valid s inst then Inr () else Inl ValidationError)"

section \<open>Arithmetic of the page count\<close>

text \<open>
  \<^verbatim>\<open>math.ceil(a / b)\<close> on two integers. Python's \<^verbatim>\<open>/\<close> raises \<^verbatim>\<open>ZeroDivisionError\<close>
  for a zero divisor and otherwise returns the double nearest to the exact quotient
  (ties to the even significand; 53 bits of precision, least exponent \<open>-1022\<close>), or
  raises \<^verbatim>\<open>OverflowError\<close> when that is beyond the double range. A double is
  represented by the rational number it denotes.
\<close>

definition round_half_even :: "rat \<Rightarrow> int" where
  "round_half_even x =
     (let f = \<lfloor>x\<rfloor>; r = x - of_int f
      in if r < 1 / 2 then f else if 1 / 2 < r then f + 1
         else if even f then f else f + 1)"

text \<open>For positive \<open>n\<close> and \<open>m\<close>, the \<open>e\<close> with \<open>2 ^ e \<le> n / m < 2 ^ (e + 1)\<close>.\<close>

definition binary_exponent :: "int \<Rightarrow> int \<Rightarrow> int" where
  "binary_exponent n m =
     (let d = bitlen n - bitlen m
      in if (2::rat) powi d \<le> of_int n / of_int m then d else d - 1)"

definition int_true_divide :: "int \<Rightarrow> int \<Rightarrow> py_error + rat" where
  "int_true_divide a b =
     (if b = 0 then Inl ZeroDivisionError
      else if a = 0 then Inr 0
      else
        let q = (of_int \<bar>a\<bar> :: rat) / of_int \<bar>b\<bar>;
            e = max (binary_exponent \<bar>a\<bar> \<bar>b\<bar>) (- 1022);
            u = (2::rat) powi (e - 52);
            y = of_int (round_half_even (q / u)) * u
        in if 2 powi 1024 \<le> y then Inl OverflowError
           else Inr (if (a < 0) \<noteq> (b < 0) then - y else y))"

text \<open>A boolean is an integer to Python's arithmetic.\<close>

fun as_int :: "json \<Rightarrow> int option" where
  "as_int (JInt i) = Some i"
| "as_int (JBool b) = Some (if b then 1 else 0)"
| "as_int _ = None"

definition truediv :: "json \<Rightarrow> json \<Rightarrow> py_error + rat" where
  "truediv x y =
     (case (as_int x, as_int y) of
        (Some a, Some b) \<Rightarrow> int_true_divide a b
      | _ \<Rightarrow> Inl TypeError)"

definition math_ceil :: "rat \<Rightarrow> int" where
  "math_ceil y = \<lceil>y\<rceil>"

section \<open>The world outside the program\<close>

text \<open>
  The export file is held as the rows that \<^verbatim>\<open>csv.reader\<close> yields from it (\<open>None\<close>: the
  file does not exist); a row that \<^verbatim>\<open>csv.DictWriter\<close> appends is read back as the same
  list of cells. The media directory maps a path to the bytes of the file there. The
  trace records each network request when it is handed to the worker pool, each opening
  of the export file for appending and each media file written.
\<close>

datatype event = GetPage int | GetMedia string | OpenCsvAppend | WriteMedia string

record world =
  csv_file :: "string list list option"
  media_files :: "string \<rightharpoonup> string"
  trace :: "event list"

text \<open>
  The remote service: what \<^verbatim>\<open>requests.get(...)\<close> followed by \<^verbatim>\<open>.json()\<close> gives for a
  page number (an exception of the transport or of the JSON decoder, or the decoded
  body), and what \<^verbatim>\<open>requests.get(url)\<close> gives for a media URL (an exception, or the
  status code and the body of the response).
\<close>

record remote =
  vocabulary_api :: "int \<Rightarrow> py_error + json"
  media_api :: "string \<Rightarrow> py_error + nat \<times> string"

text \<open>
  \<^verbatim>\<open>asyncio.gather\<close> starts every coroutine of a batch before any of them is resumed,
  and resumes them in the order in which their requests complete. That order is not
  fixed by the program: it is a parameter. Any list of indices stands for an order of
  \<open>n\<close> jobs: its valid indices without repetition, then the jobs it does not name.
\<close>

definition completion_order :: "nat list \<Rightarrow> nat \<Rightarrow> nat list" where
  "completion_order order n =
     remdups (filter (\<lambda>i. i < n) order) @ filter (\<lambda>i. i \<notin> set order) [0..<n]"

record schedule =
  page_order :: "nat list"
  media_order :: "media_type \<Rightarrow> nat list"

section \<open>Vocabulary Page Fetcher and Collector\<close>

text \<open>What iterating over a value yields (\<^verbatim>\<open>list.extend\<close> iterates over its argument).\<close>

fun py_iter :: "json \<Rightarrow> py_error + json list" where
  "py_iter (JArr xs) = Inr xs"
| "py_iter (JObj kvs) = Inr (map (\<lambda>kv. JStr (fst kv)) kvs)"
| "py_iter (JStr s) = Inr (map (\<lambda>c. JStr [c]) s)"
| "py_iter _ = Inl TypeError"

text \<open>The last expression of \<^verbatim>\<open>get_babbel_vocabulary_page\<close>.\<close>

definition num_pages_of :: "json \<Rightarrow> py_error + int" where
  "num_pages_of response =
     (case getitem response ''total_filtered_items'' of
        Inl e \<Rightarrow> Inl e
      | Inr total_items \<Rightarrow>
          (case getitem response ''per_page_limit'' of
             Inl e \<Rightarrow> Inl e
           | Inr page_limit \<Rightarrow>
               (case truediv total_items page_limit of
                  Inl e \<Rightarrow> Inl e
                | Inr y \<Rightarrow> Inr (math_ceil y))))"

text \<open>
  \<^verbatim>\<open>get_babbel_vocabulary_page\<close> after its request has completed: the number of pages
  and the extended vocabulary list.
\<close>

definition page_result :: "remote \<Rightarrow> int \<Rightarrow> json list \<Rightarrow> py_error + int \<times> json list" where
  "page_result r page_number vocabulary =
     (case vocabulary_api r page_number of
        Inl e \<Rightarrow> Inl e
      | Inr response \<Rightarrow>
          (case validate response schema of
             Inl e \<Rightarrow> Inl e
           | Inr _ \<Rightarrow>
               (case getitem response ''review'' of
                  Inl e \<Rightarrow> Inl e
                | Inr response' \<Rightarrow>
                    (case getitem response' ''trainer_items'' of
                       Inl e \<Rightarrow> Inl e
                     | Inr items \<Rightarrow>
                         (case py_iter items of
                            Inl e \<Rightarrow> Inl e
                          | Inr xs \<Rightarrow>
                              (case num_pages_of response' of
                                 Inl e \<Rightarrow> Inl e
                               | Inr n \<Rightarrow> Inr (n, vocabulary @ xs)))))))"

text \<open>
  The request for a page, as it is handed to the worker pool. Each request carries its
  own page number here; the source passes it through the shared dict
  \<^verbatim>\<open>search_params\<close>, written from the worker threads, and the interleavings of those
  writes are not modelled.
\<close>

definition page_request :: "int \<Rightarrow> world \<Rightarrow> world" where
  "page_request page_number w = w\<lparr>trace := trace w @ [GetPage page_number]\<rparr>"

definition get_babbel_vocabulary_page ::
  "remote \<Rightarrow> int \<Rightarrow> json list \<Rightarrow> world \<Rightarrow> (py_error + int \<times> json list) \<times> world" where
  "get_babbel_vocabulary_page r page_number vocabulary w =
     (page_result r page_number vocabulary, page_request page_number w)"

text \<open>The pages of a batch, resumed one after the other; the first failure ends the batch.\<close>

fun complete_pages :: "remote \<Rightarrow> int list \<Rightarrow> json list \<Rightarrow> py_error + json list" where
  "complete_pages r [] vocabulary = Inr vocabulary"
| "complete_pages r (p # ps) vocabulary =
     (case page_result r p vocabulary of
        Inl e \<Rightarrow> Inl e
      | Inr (_, vocabulary') \<Rightarrow> complete_pages r ps vocabulary')"

text \<open>The pages of \<^verbatim>\<open>range(2, num_pages+1)\<close> in the order in which their requests complete.\<close>

definition pages_done_order :: "nat list \<Rightarrow> int \<Rightarrow> int list" where
  "pages_done_order order num_pages =
     (let pages = [2..num_pages]
      in map (\<lambda>i. pages ! i) (completion_order order (length pages)))"

definition get_babbel_vocabulary ::
  "nat list \<Rightarrow> remote \<Rightarrow> world \<Rightarrow> (py_error + json list) \<times> world" where
  "get_babbel_vocabulary order r w =
     (case get_babbel_vocabulary_page r 1 [] w of
        (Inl e, w1) \<Rightarrow> (Inl e, w1)
      | (Inr (num_pages, vocabulary), w1) \<Rightarrow>
          if 1 < num_pages then
            (complete_pages r (pages_done_order order num_pages) vocabulary,
             w1\<lparr>trace := trace w1 @ map GetPage [2..num_pages]\<rparr>)
          else (Inr vocabulary, w1))"

section \<open>Dedup Filter\<close>

text \<open>
  \<^verbatim>\<open>[row[0] for row in reader]\<close>: an empty row (a blank line of the file) has no first
  cell, and \<^verbatim>\<open>row[0]\<close> raises \<^verbatim>\<open>IndexError\<close>.
\<close>

fun existing_ids_of :: "string list list \<Rightarrow> py_error + string list" where
  "existing_ids_of [] = Inr []"
| "existing_ids_of ([] # rows) = Inl IndexError"
| "existing_ids_of ((c # cs) # rows) =
     (case existing_ids_of rows of Inl e \<Rightarrow> Inl e | Inr ids \<Rightarrow> Inr (c # ids))"

fun select_items :: "string list \<Rightarrow> json list \<Rightarrow> py_error + json list" where
  "select_items existing_ids [] = Inr []"
| "select_items existing_ids (vocab_item # vocabulary) =
     (case getitem vocab_item ''id'' of
        Inl e \<Rightarrow> Inl e
      | Inr i \<Rightarrow>
          (case select_items existing_ids vocabulary of
             Inl e \<Rightarrow> Inl e
           | Inr rest \<Rightarrow>
               Inr (if py_str i \<notin> set existing_ids then vocab_item # rest else rest)))"

text \<open>Only \<^verbatim>\<open>FileNotFoundError\<close> is caught; the file is read, never changed.\<close>

definition select_new_vocabulary :: "json list \<Rightarrow> world \<Rightarrow> py_error + json list" where
  "select_new_vocabulary vocabulary w =
     (case csv_file w of
        None \<Rightarrow> Inr vocabulary
      | Some rows \<Rightarrow>
          (case existing_ids_of rows of
             Inl e \<Rightarrow> Inl e
           | Inr existing_ids \<Rightarrow> select_items existing_ids vocabulary))"

section \<open>Export Writer\<close>

text \<open>
  One round of the inner loop of \<^verbatim>\<open>write_csv\<close>:
  \<^verbatim>\<open>vocab_item["l2_text"] = vocab_item["l2_text"].replace(char, "")\<close>. Only a string has
  the method \<^verbatim>\<open>replace\<close>.
\<close>

definition strip_char :: "char \<Rightarrow> json \<Rightarrow> py_error + json" where
  "strip_char c vocab_item =
     (case getitem vocab_item ''l2_text'' of
        Inl e \<Rightarrow> Inl e
      | Inr v \<Rightarrow>
          (case v of
             JStr s \<Rightarrow> setitem vocab_item ''l2_text'' (JStr (filter (\<lambda>x. x \<noteq> c) s))
           | _ \<Rightarrow> Inl AttributeError))"

definition clean_item :: "json \<Rightarrow> py_error + json" where
  "clean_item vocab_item =
     (case strip_char (CHR '')'') vocab_item of
        Inl e \<Rightarrow> Inl e
      | Inr vocab_item' \<Rightarrow> strip_char (CHR ''('') vocab_item')"

fun clean_all :: "json list \<Rightarrow> py_error + json list" where
  "clean_all [] = Inr []"
| "clean_all (vocab_item # vocabulary) =
     (case clean_item vocab_item of
        Inl e \<Rightarrow> Inl e
      | Inr vocab_item' \<Rightarrow>
          (case clean_all vocabulary of
             Inl e \<Rightarrow> Inl e
           | Inr rest \<Rightarrow> Inr (vocab_item' # rest)))"

text \<open>
  A cell as the \<^verbatim>\<open>csv\<close> writer renders it: \<^verbatim>\<open>None\<close> is the empty cell, a string is
  itself, anything else goes through \<^verbatim>\<open>str\<close>. \<^verbatim>\<open>DictWriter\<close> with
  \<^verbatim>\<open>extrasaction="ignore"\<close> builds a row by \<^verbatim>\<open>rowdict.get(key, "")\<close> for each field name.
\<close>

fun csv_cell :: "json \<Rightarrow> string" where
  "csv_cell JNull = []"
| "csv_cell v = py_str v"

fun dict_to_list :: "json \<Rightarrow> py_error + string list" where
  "dict_to_list (JObj kvs) =
     Inr (map (\<lambda>k. case map_of kvs k of None \<Rightarrow> [] | Some v \<Rightarrow> csv_cell v) csv_fieldnames)"
| "dict_to_list _ = Inl AttributeError"

text \<open>\<^verbatim>\<open>writerows\<close>: the rows before a failing one have been written.\<close>

fun writerows :: "json list \<Rightarrow> string list list \<Rightarrow> py_error option \<times> string list list" where
  "writerows [] rows = (None, rows)"
| "writerows (vocab_item # vocabulary) rows =
     (case dict_to_list vocab_item of
        Inl e \<Rightarrow> (Some e, rows)
      | Inr row \<Rightarrow> writerows vocabulary (rows @ [row]))"

text \<open>Opening with mode \<^verbatim>\<open>'a'\<close> creates the file when it does not exist.\<close>

definition write_csv :: "json list \<Rightarrow> world \<Rightarrow> py_error option \<times> world" where
  "write_csv vocabulary w =
     (case clean_all vocabulary of
        Inl e \<Rightarrow> (Some e, w)
      | Inr vocabulary' \<Rightarrow>
          let rows = (case csv_file w of None \<Rightarrow> [] | Some rs \<Rightarrow> rs);
              (err, rows') = writerows vocabulary' rows
          in (err, w\<lparr>csv_file := Some rows', trace := trace w @ [OpenCsvAppend]\<rparr>))"

section \<open>Media Fetcher and Media Downloader\<close>

definition media_path :: "string \<Rightarrow> string" where
  "media_path media_filename = media_directory @ ''/'' @ media_filename"

text \<open>
  \<^verbatim>\<open>download_media_item\<close> up to its \<^verbatim>\<open>yield from\<close>: the file name, whether the file
  exists, and the request handed to the pool when it does not.
\<close>

definition media_start :: "json \<Rightarrow> media_type \<Rightarrow> world \<Rightarrow> (string \<times> bool) \<times> world" where
  "media_start media_id t w =
     (let media_url = media_urls t media_id;
          media_filename = media_filenames t media_id;
          file_exists = (media_files w (media_path media_filename) \<noteq> None)
      in ((media_filename, file_exists),
          if file_exists then w else w\<lparr>trace := trace w @ [GetMedia media_url]\<rparr>))"

text \<open>
  \<^verbatim>\<open>download_media_item\<close> resumed with the outcome of its request: an exception of
  \<^verbatim>\<open>requests.get\<close> is raised again; a response is written to the file whatever its status.
\<close>

definition media_finish :: "remote \<Rightarrow> json \<Rightarrow> media_type \<Rightarrow> world \<Rightarrow> py_error option \<times> world" where
  "media_finish r media_id t w =
     (case media_api r (media_urls t media_id) of
        Inl e \<Rightarrow> (Some e, w)
      | Inr (status, content) \<Rightarrow>
          let p = media_path (media_filenames t media_id)
          in (None, w\<lparr>media_files := (media_files w)(p \<mapsto> content),
                       trace := trace w @ [WriteMedia p]\<rparr>))"

definition download_media_item ::
  "remote \<Rightarrow> json \<Rightarrow> media_type \<Rightarrow> world \<Rightarrow> (py_error + string \<times> bool) \<times> world" where
  "download_media_item r media_id t w =
     (case media_start media_id t w of
        ((media_filename, file_exists), w1) \<Rightarrow>
          if file_exists then (Inr (media_filename, True), w1)
          else (case media_finish r media_id t w1 of
                  (Some e, w2) \<Rightarrow> (Inl e, w2)
                | (None, w2) \<Rightarrow> (Inr (media_filename, False), w2)))"

text \<open>
  \<^verbatim>\<open>[download_media_item(vocab_item[field], ...) for vocab_item in vocabulary]\<close>: the
  subscript is evaluated while the list is built.
\<close>

fun media_ids :: "string \<Rightarrow> json list \<Rightarrow> py_error + json list" where
  "media_ids field [] = Inr []"
| "media_ids field (vocab_item # vocabulary) =
     (case getitem vocab_item field of
        Inl e \<Rightarrow> Inl e
      | Inr i \<Rightarrow>
          (case media_ids field vocabulary of
             Inl e \<Rightarrow> Inl e
           | Inr rest \<Rightarrow> Inr (i # rest)))"

text \<open>The two halves of \<^verbatim>\<open>asyncio.gather\<close> over the coroutines of one media kind.\<close>

fun start_all :: "media_type \<Rightarrow> json list \<Rightarrow> world \<Rightarrow> (string \<times> bool) list \<times> world" where
  "start_all t [] w = ([], w)"
| "start_all t (i # ids) w =
     (case media_start i t w of
        (res, w1) \<Rightarrow> (case start_all t ids w1 of (rest, w2) \<Rightarrow> (res # rest, w2)))"

fun finish_all :: "remote \<Rightarrow> media_type \<Rightarrow> json list \<Rightarrow> world \<Rightarrow> py_error option \<times> world" where
  "finish_all r t [] w = (None, w)"
| "finish_all r t (i # ids) w =
     (case media_finish r i t w of
        (Some e, w1) \<Rightarrow> (Some e, w1)
      | (None, w1) \<Rightarrow> finish_all r t ids w1)"

definition gather_media ::
  "nat list \<Rightarrow> remote \<Rightarrow> media_type \<Rightarrow> json list \<Rightarrow> world
     \<Rightarrow> (py_error + (string \<times> bool) list) \<times> world" where
  "gather_media order r t ids w =
     (case start_all t ids w of
        (results, w1) \<Rightarrow>
          let pending = filter (\<lambda>i. \<not> snd (results ! i)) (completion_order order (length ids))
          in (case finish_all r t (map (\<lambda>i. ids ! i) pending) w1 of
                (Some e, w2) \<Rightarrow> (Inl e, w2)
              | (None, w2) \<Rightarrow> (Inr results, w2)))"

text \<open>The loop over \<^verbatim>\<open>zip(vocabulary, results)\<close>, with the count that is logged after it.\<close>

fun attach_results ::
  "media_type \<Rightarrow> json list \<Rightarrow> (string \<times> bool) list \<Rightarrow> py_error + json list \<times> nat" where
  "attach_results t (vocab_item # vocabulary) (filename_tuple # results) =
     (case setitem vocab_item (media_csv_fields t)
             (JStr (media_entries t (fst filename_tuple))) of
        Inl e \<Rightarrow> Inl e
      | Inr vocab_item' \<Rightarrow>
          (case attach_results t vocabulary results of
             Inl e \<Rightarrow> Inl e
           | Inr (rest, existing_media_count) \<Rightarrow>
               Inr (vocab_item' # rest,
                    if snd filename_tuple then existing_media_count + 1
                    else existing_media_count)))"
| "attach_results t _ _ = Inr ([], 0)"

text \<open>One round of the loop of \<^verbatim>\<open>download_media\<close>, for one media kind.\<close>

definition download_media_of ::
  "nat list \<Rightarrow> remote \<Rightarrow> media_type \<Rightarrow> json list \<Rightarrow> world
     \<Rightarrow> (py_error + json list \<times> nat) \<times> world" where
  "download_media_of order r t vocabulary w =
     (case media_ids (media_id_fields t) vocabulary of
        Inl e \<Rightarrow> (Inl e, w)
      | Inr ids \<Rightarrow>
          (case gather_media order r t ids w of
             (Inl e, w1) \<Rightarrow> (Inl e, w1)
           | (Inr results, w1) \<Rightarrow> (attach_results t vocabulary results, w1)))"

text \<open>
  \<^verbatim>\<open>download_media\<close>: images, then sounds. The result is the vocabulary as it has been
  updated in place and the two counts of files that already existed.
\<close>

definition download_media ::
  "(media_type \<Rightarrow> nat list) \<Rightarrow> remote \<Rightarrow> json list \<Rightarrow> world
     \<Rightarrow> (py_error + json list \<times> nat list) \<times> world" where
  "download_media orders r vocabulary w =
     (case download_media_of (orders Image) r Image vocabulary w of
        (Inl e, w1) \<Rightarrow> (Inl e, w1)
      | (Inr (vocabulary1, n1), w1) \<Rightarrow>
          (case download_media_of (orders Audio) r Audio vocabulary1 w1 of
             (Inl e, w2) \<Rightarrow> (Inl e, w2)
           | (Inr (vocabulary2, n2), w2) \<Rightarrow> (Inr (vocabulary2, [n1, n2]), w2)))"

section \<open>The run\<close>

text \<open>The body under \<^verbatim>\<open>if __name__ == '__main__'\<close>: the error that ended the run, if any.\<close>

definition main :: "schedule \<Rightarrow> remote \<Rightarrow> world \<Rightarrow> py_error option \<times> world" where
  "main sch r w =
     (case get_babbel_vocabulary (page_order sch) r w of
        (Inl e, w1) \<Rightarrow> (Some e, w1)
      | (Inr vocabulary, w1) \<Rightarrow>
          (case select_new_vocabulary vocabulary w1 of
             Inl e \<Rightarrow> (Some e, w1)
           | Inr vocabulary' \<Rightarrow>
               if vocabulary' \<noteq> [] then
                 (case download_media (media_order sch) r vocabulary' w1 of
                    (Inl e, w2) \<Rightarrow> (Some e, w2)
                  | (Inr (vocabulary'', counts), w2) \<Rightarrow> write_csv vocabulary'' w2)
               else (None, w1)))"

section \<open>Reference notions and concrete inputs\<close>

text \<open>
  The notions in which the properties below are stated, and the inputs at which they are
  evaluated. None of them is used by the model above.
\<close>

definition empty_world :: world where
  "empty_world = \<lparr>csv_file = None, media_files = Map.empty, trace = []\<rparr>"

text \<open>A response of the documented shape.\<close>

definition page_response :: "json list \<Rightarrow> int \<Rightarrow> int \<Rightarrow> int \<Rightarrow> json" where
  "page_response items total_items page_limit p =
     JObj [(''review'',
            JObj [(''trainer_items'', JArr items),
                  (''total_filtered_items'', JInt total_items),
                  (''per_page_limit'', JInt page_limit),
                  (''page'', JInt p)])]"

text \<open>A service that answers every page request with the empty object.\<close>

definition no_envelope_remote :: remote where
  "no_envelope_remote =
     \<lparr>vocabulary_api = (\<lambda>p. Inr (JObj [])), media_api = (\<lambda>u. Inl RequestException)\<rparr>"

text \<open>The identifier of an entry as text, and the first column of the export.\<close>

definition entry_id :: "json \<Rightarrow> string option" where
  "entry_id vocab_item =
     (case getitem vocab_item ''id'' of Inl e \<Rightarrow> None | Inr i \<Rightarrow> Some (py_str i))"

definition first_column :: "world \<Rightarrow> string list" where
  "first_column w = (case csv_file w of None \<Rightarrow> [] | Some rows \<Rightarrow> map hd rows)"

definition not_exported :: "world \<Rightarrow> json \<Rightarrow> bool" where
  "not_exported w vocab_item =
     (case entry_id vocab_item of None \<Rightarrow> True | Some s \<Rightarrow> s \<notin> set (first_column w))"

definition blank_line_world :: world where
  "blank_line_world =
     \<lparr>csv_file = Some [[''1'', ''word''], []], media_files = Map.empty, trace = []\<rparr>"

definition two_rows_world :: world where
  "two_rows_world =
     \<lparr>csv_file = Some [[''1'', ''word''], [''3'', ''x'']], media_files = Map.empty, trace = []\<rparr>"

definition three_entries :: "json list" where
  "three_entries =
     [JObj [(''id'', JInt 3)], JObj [(''id'', JInt 2)], JObj [(''id'', JStr ''1'')]]"

text \<open>A media server that answers every request with status 404, and one that is down.\<close>

definition not_found_remote :: remote where
  "not_found_remote =
     \<lparr>vocabulary_api = (\<lambda>p. Inl RequestException),
      media_api = (\<lambda>u. Inr (404, ''Not Found''))\<rparr>"

definition unreachable_remote :: remote where
  "unreachable_remote =
     \<lparr>vocabulary_api = (\<lambda>p. Inl RequestException),
      media_api = (\<lambda>u. Inl RequestException)\<rparr>"

text \<open>Services whose pages announce 95 entries at 30 a page, at 0 a page, and
  \<open>2 ^ 53 + 1\<close> entries at one a page.\<close>

definition remote_95_30 :: remote where
  "remote_95_30 =
     \<lparr>vocabulary_api = (\<lambda>p. Inr (page_response [] 95 30 p)),
      media_api = (\<lambda>u. Inl RequestException)\<rparr>"

definition remote_zero_limit :: remote where
  "remote_zero_limit =
     \<lparr>vocabulary_api = (\<lambda>p. Inr (page_response [] 95 0 p)),
      media_api = (\<lambda>u. Inl RequestException)\<rparr>"

definition remote_huge :: remote where
  "remote_huge =
     \<lparr>vocabulary_api = (\<lambda>p. Inr (page_response [] 9007199254740993 1 p)),
      media_api = (\<lambda>u. Inl RequestException)\<rparr>"

text \<open>What a page contributes to the vocabulary list.\<close>

definition page_items :: "remote \<Rightarrow> int \<Rightarrow> json list" where
  "page_items r p = (case page_result r p [] of Inl e \<Rightarrow> [] | Inr (n, xs) \<Rightarrow> xs)"

text \<open>An entry as the service sends it, and services that send such entries.\<close>

definition entry :: "int \<Rightarrow> json" where
  "entry i =
     JObj [(''id'', JInt i), (''image_id'', JInt (100 + i)), (''sound_id'', JInt (200 + i)),
           (''l1_text'', JStr ''hello''), (''l2_text'', JStr ''(privet)'')]"

definition remote_one_page :: remote where
  "remote_one_page =
     \<lparr>vocabulary_api = (\<lambda>p. Inr (page_response [entry 1] 1 30 p)),
      media_api = (\<lambda>u. Inr (200, ''bytes''))\<rparr>"

definition exported_world :: world where
  "exported_world =
     \<lparr>csv_file = Some [[''1'', '''', ''101'', ''x'', ''201'', ''y'', ''hello'', ''privet'', '''']],
      media_files = Map.empty, trace = []\<rparr>"

text \<open>Four pages, the third without \<^verbatim>\<open>total_filtered_items\<close>.\<close>

definition remote_bad_page3 :: remote where
  "remote_bad_page3 =
     \<lparr>vocabulary_api =
        (\<lambda>p. if p = 3
              then Inr (JObj [(''review'',
                     JObj [(''trainer_items'', JArr []), (''per_page_limit'', JInt 30),
                           (''page'', JInt 3)])])
              else Inr (page_response [entry p] 95 30 p)),
      media_api = (\<lambda>u. Inr (200, ''bytes''))\<rparr>"

definition pages_3_2_4 :: schedule where
  "pages_3_2_4 = \<lparr>page_order = [1, 0, 2], media_order = (\<lambda>t. [])\<rparr>"

text \<open>
  The row that the specification describes for an entry: the nine columns in their fixed
  order, the empty cell for a column the entry does not have, the target-language text
  without parentheses, nothing for any other field.
\<close>

definition spec_row :: "json \<Rightarrow> string list" where
  "spec_row vocab_item =
     map (\<lambda>k. case getitem vocab_item k of
                 Inl e \<Rightarrow> []
               | Inr v \<Rightarrow>
                   if k = ''l2_text''
                   then filter (\<lambda>c. c \<noteq> CHR ''('' \<and> c \<noteq> CHR '')'') (py_str v)
                   else csv_cell v)
         csv_fieldnames"

definition sparse_entry :: json where
  "sparse_entry =
     JObj [(''id'', JInt 1), (''l2_text'', JStr ''(privet)''), (''extra'', JStr ''zzz'')]"

section \<open>The page count: rounding to a double keeps the ceiling\<close>

lemma round_half_even_error: "\<bar>of_int (round_half_even x) - x\<bar> \<le> 1 / 2"
proof -
  have "of_int \<lfloor>x\<rfloor> \<le> x" "x < of_int \<lfloor>x\<rfloor> + 1" by linarith+
  then show ?thesis
    by (auto simp: round_half_even_def Let_def abs_le_iff)
qed

lemma round_half_even_of_int: "round_half_even (of_int z) = z"
  by (simp add: round_half_even_def)

lemma binary_exponent_le:
  assumes "0 < n" "0 < m"
  shows "(2::rat) powi binary_exponent n m \<le> of_int n / of_int m"
proof -
  define d where "d = bitlen n - bitlen m"
  have bn: "2 ^ nat (bitlen n - 1) \<le> n" and bm: "m < 2 ^ nat (bitlen m)"
    using bitlen_bounds[OF assms(1)] bitlen_bounds[OF assms(2)] by auto
  have pn: "1 \<le> bitlen n" using assms(1) by (auto simp: bitlen_alt_def)
  have pm: "0 \<le> bitlen m" by (rule bitlen_nonneg)
  have "(2::rat) powi (d - 1) = 2 powi (bitlen n - 1) / 2 powi (bitlen m)"
    using power_int_diff[of "2::rat" "bitlen n - 1" "bitlen m"]
    by (simp add: d_def algebra_simps)
  also have "\<dots> = 2 ^ nat (bitlen n - 1) / 2 ^ nat (bitlen m)"
    using pn pm by (simp add: power_int_nonneg_exp)
  also have "\<dots> \<le> of_int n / of_int m"
  proof (rule frac_le)
    show "(2::rat) ^ nat (bitlen n - 1) \<le> of_int n"
      using bn by (metis of_int_le_iff of_int_numeral of_int_power)
    show "(of_int m :: rat) \<le> 2 ^ nat (bitlen m)"
      using bm by (metis less_imp_le of_int_le_iff of_int_numeral of_int_power)
    show "(0::rat) < of_int m" using assms(2) by simp
    show "(0::rat) \<le> of_int n" using assms(1) by simp
  qed
  finally have "(2::rat) powi (d - 1) \<le> of_int n / of_int m" .
  then show ?thesis
    by (simp add: binary_exponent_def Let_def d_def)
qed

lemma binary_exponent_le_52:
  assumes "0 < n" "n < 2 ^ 53" "0 < m"
  shows "binary_exponent n m \<le> 52"
proof -
  have "(2::rat) powi binary_exponent n m \<le> of_int n / of_int m"
    using assms by (intro binary_exponent_le) auto
  also have "\<dots> \<le> of_int n"
    using assms by (simp add: divide_le_eq mult_le_cancel_left1)
  also have "\<dots> < 2 ^ 53"
    using assms(2) by (metis of_int_less_iff of_int_numeral of_int_power)
  finally have "(2::rat) powi binary_exponent n m < 2 powi 53" by simp
  then have "binary_exponent n m < 53"
    by (rule power_int_le_imp_less_exp[rotated]) simp_all
  then show ?thesis by simp
qed

text \<open>
  Below \<open>2 ^ 53\<close> the rounding error of the quotient is less than its distance to the
  next integer, and an integer quotient is exact.
\<close>

lemma int_true_divide_ceiling:
  assumes b0: "b \<noteq> 0" and ba: "\<bar>a\<bar> < 2 ^ 53" and bb: "\<bar>b\<bar> < 2 ^ 53"
  shows "\<exists>y. int_true_divide a b = Inr y \<and> \<lceil>y\<rceil> = \<lceil>(of_int a :: rat) / of_int b\<rceil>"
proof (cases "a = 0")
  case True
  then show ?thesis using b0 by (simp add: int_true_divide_def)
next
  case a0: False
  define n where "n = \<bar>a\<bar>"
  define m where "m = \<bar>b\<bar>"
  have n: "0 < n" "n < 2 ^ 53" and m: "0 < m" "m < 2 ^ 53"
    using a0 b0 ba bb by (auto simp: n_def m_def)
  define q :: rat where "q = of_int n / of_int m"
  define e where "e = max (binary_exponent n m) (- 1022)"
  define u :: rat where "u = 2 powi (e - 52)"
  define y where "y = of_int (round_half_even (q / u)) * u"
  have mr: "(0::rat) < of_int m" "(1::rat) \<le> of_int m"
    using m by simp_all
  have mr53: "(of_int m :: rat) < 2 ^ 53"
    using m(2) by (metis of_int_less_iff of_int_numeral of_int_power)
  have nr: "(of_int n :: rat) < 2 ^ 53"
    using n(2) by (metis of_int_less_iff of_int_numeral of_int_power)
  have u_pos: "0 < u" by (simp add: u_def)
  have q_lt: "q < 2 ^ 53 / of_int m"
    unfolding q_def using nr mr by (simp add: divide_strict_right_mono)
  have e_lt: "(2::rat) powi e < 2 ^ 53 / of_int m"
  proof (cases "binary_exponent n m \<le> - 1022")
    case True
    then have "e = - 1022" by (simp add: e_def)
    then have "(2::rat) powi e < 1" by (simp add: power_int_minus_divide)
    also have "\<dots> < 2 ^ 53 / of_int m" using mr mr53 by simp
    finally show ?thesis .
  next
    case False
    then have "e = binary_exponent n m" by (simp add: e_def)
    then have "(2::rat) powi e \<le> q"
      unfolding q_def using binary_exponent_le[OF n(1) m(1)] by simp
    with q_lt show ?thesis by simp
  qed
  have e52: "e \<le> 52"
    using binary_exponent_le_52[OF n m(1)] by (simp add: e_def)
  have "u / 2 = 2 powi e / 2 ^ 53"
    using power_int_diff[of "2::rat" e 53] power_int_diff[of "2::rat" e 52]
    by (simp add: u_def)
  also have "\<dots> < (2 ^ 53 / of_int m) / 2 ^ 53"
    using e_lt by (simp add: divide_strict_right_mono)
  finally have half_u: "u / 2 < 1 / of_int m" by simp
  have yq: "y - q = (of_int (round_half_even (q / u)) - q / u) * u"
    using u_pos by (simp add: y_def left_diff_distrib)
  have "\<bar>y - q\<bar> = \<bar>of_int (round_half_even (q / u)) - q / u\<bar> * u"
    unfolding yq using u_pos by (simp add: abs_mult)
  also have "\<dots> \<le> (1 / 2) * u"
    using round_half_even_error[of "q / u"] u_pos by (intro mult_right_mono) auto
  finally have err: "\<bar>y - q\<bar> \<le> u / 2" by simp
  with half_u have close: "\<bar>y - q\<bar> < 1 / of_int m" by simp
  have q_le: "q \<le> of_int n"
    unfolding q_def using mr n(1) by (simp add: divide_le_eq mult_le_cancel_left1)
  have "1 / (of_int m :: rat) \<le> 1" using mr by simp
  with close q_le nr have "y < 2 ^ 53 + 1" by linarith
  also have "\<dots> \<le> (2::rat) ^ 1024" by simp
  finally have no_over: "\<not> 2 powi 1024 \<le> y" by simp
  define neg where "neg = ((a < 0) \<noteq> (b < 0))"
  define s :: rat where "s = (if neg then - 1 else 1)"
  have res: "int_true_divide a b = Inr (s * y)"
    using a0 b0 no_over
    by (simp add: int_true_divide_def Let_def y_def u_def e_def q_def n_def m_def s_def neg_def)
  define a' where "a' = (if neg then - n else n)"
  have quot: "(of_int a :: rat) / of_int b = of_int a' / of_int m"
    using a0 b0 by (auto simp: a'_def neg_def n_def m_def abs_if)
  have sq: "s * q = of_int a' / of_int m"
    by (simp add: s_def a'_def q_def)
  have "\<bar>s * y - s * q\<bar> = \<bar>y - q\<bar>"
    by (simp add: s_def abs_minus_commute)
  with close sq have sy: "\<bar>s * y - of_int a' / of_int m\<bar> < 1 / of_int m" by simp
  define x :: rat where "x = of_int a' / of_int m"
  define k where "k = \<lceil>x\<rceil>"
  have sy': "\<bar>s * y - x\<bar> < 1 / of_int m" using sy by (simp add: x_def)
  have "\<lceil>s * y\<rceil> = k"
  proof (cases "m dvd a'")
    case True
    then obtain j where j: "a' = m * j" ..
    have "\<bar>a'\<bar> = n" using n(1) by (simp add: a'_def)
    then have "n = m * \<bar>j\<bar>"
      using m(1) by (simp add: j abs_mult)
    then have qj: "q = of_int \<bar>j\<bar>" using mr by (simp add: q_def)
    have "1 / u = 2 powi (52 - e)"
      using power_int_minus_divide[of "2::rat" "e - 52"] by (simp add: u_def)
    also have "\<dots> = 2 ^ nat (52 - e)"
      using e52 by (simp add: power_int_nonneg_exp)
    finally have "q / u = of_int (\<bar>j\<bar> * 2 ^ nat (52 - e))"
      by (simp add: qj divide_inverse)
    then have "of_int (round_half_even (q / u)) = q / u"
      by (simp only: round_half_even_of_int)
    then have "y = q" using u_pos by (simp add: y_def)
    then show ?thesis using sq by (simp add: k_def x_def)
  next
    case False
    have kx: "x \<le> of_int k" "of_int k - 1 < x"
      unfolding k_def by linarith+
    have xm: "x * of_int m = of_int a'" using mr by (simp add: x_def)
    have "x * of_int m \<le> of_int k * of_int m"
      using kx(1) mr by (intro mult_right_mono) auto
    then have "(of_int a' :: rat) \<le> of_int (k * m)" by (simp add: xm)
    then have "a' \<le> k * m" by (simp only: of_int_le_iff)
    moreover have "a' \<noteq> k * m" using False by auto
    ultimately have "a' + 1 \<le> k * m" by simp
    then have "(of_int (a' + 1) :: rat) \<le> of_int (k * m)" by (simp only: of_int_le_iff)
    then have "x * of_int m + 1 \<le> of_int k * of_int m" by (simp add: xm)
    then have up: "x + 1 / of_int m \<le> of_int k"
      using mr by (simp add: field_simps)
    have "(of_int k - 1) * of_int m < x * of_int m"
      using kx(2) mr by (intro mult_strict_right_mono) auto
    then have "(of_int ((k - 1) * m) :: rat) < of_int a'" by (simp add: xm)
    then have "(k - 1) * m < a'" by (simp only: of_int_less_iff)
    then have "(k - 1) * m + 1 \<le> a'" by simp
    then have "(of_int ((k - 1) * m + 1) :: rat) \<le> of_int a'" by (simp only: of_int_le_iff)
    then have "(of_int k - 1) * of_int m + 1 \<le> x * of_int m" by (simp add: xm)
    then have lo: "of_int k - 1 + 1 / of_int m \<le> x"
      using mr by (simp add: field_simps)
    from sy' up lo have "of_int k - 1 < s * y" "s * y \<le> of_int k" by linarith+
    then show ?thesis by (rule ceiling_unique)
  qed
  with res quot show ?thesis by (simp add: k_def x_def)
qed

section \<open>Vocabulary Page Fetcher: validation\<close>

lemma page_result_invalid:
  "vocabulary_api r p = Inr response \<Longrightarrow> \<not> is_valid schema response
     \<Longrightarrow> page_result r p vocabulary = Inl ValidationError"
  by (simp add: page_result_def validate_def)

lemma page_result_network_error:
  "vocabulary_api r p = Inl e \<Longrightarrow> page_result r p vocabulary = Inl e"
  by (simp add: page_result_def)

text \<open>
  C1. A response that is not of the required shape makes the page fetcher fail with
  \<^verbatim>\<open>ValidationError\<close> and with no other error. The code does not do this for the
  response \<^verbatim>\<open>{}\<close>: \<open>schema\<close> lists no required key at the top level, so the empty
  object passes \<^verbatim>\<open>jsonschema.validate\<close>, and \<^verbatim>\<open>response["review"]\<close> then raises
  \<^verbatim>\<open>KeyError\<close>.
\<close>

theorem missing_envelope_raises_KeyError:
  "validate (JObj []) schema = Inr () \<and>
   page_result no_envelope_remote 1 [] = Inl (KeyError ''review'')"
  by (simp add: page_result_def validate_def schema_def no_envelope_remote_def)

lemma page_result_acc:
  "page_result r p vocabulary =
     (case page_result r p [] of
        Inl e \<Rightarrow> Inl e
      | Inr (n, xs) \<Rightarrow> Inr (n, vocabulary @ xs))"
  by (simp add: page_result_def split: sum.split)

lemma is_type_array: "is_type TArray v \<Longrightarrow> \<exists>xs. v = JArr xs"
  by (cases v) auto

lemma is_type_number: "is_type TNumber v \<Longrightarrow> \<exists>a. v = JInt a"
  by (cases v) auto

lemma is_type_object: "is_type TObject v \<Longrightarrow> \<exists>kvs. v = JObj kvs"
  by (cases v) auto

lemma is_valid_type: "is_valid (Schema (Some ty) ps req) v \<Longrightarrow> is_type ty v"
  by simp

lemma is_valid_property:
  assumes "is_valid (Schema t ps req) (JObj kvs)" and "(k, s) \<in> set ps" and "k \<in> set req"
  shows "\<exists>v. map_of kvs k = Some v \<and> is_valid s v"
proof -
  from assms(1) have props:
    "list_all (\<lambda>p. case map_of kvs (fst p) of None \<Rightarrow> True | Some v \<Rightarrow> is_valid (snd p) v) ps"
    and reqs: "list_all (\<lambda>r. r \<in> fst ` set kvs) req"
    by simp_all
  from reqs assms(3) have "k \<in> fst ` set kvs"
    by (simp add: list_all_iff)
  then obtain v where v: "map_of kvs k = Some v"
    by (cases "map_of kvs k") (auto simp: map_of_eq_None_iff)
  from props have
    "\<forall>p\<in>set ps. case map_of kvs (fst p) of None \<Rightarrow> True | Some v \<Rightarrow> is_valid (snd p) v"
    by (simp add: list_all_iff)
  from bspec[OF this assms(2)] v show ?thesis by simp
qed

lemma valid_review:
  assumes "is_valid schema response" and "getitem response ''review'' = Inr rv"
  shows "\<exists>kvs xs a b c. rv = JObj kvs \<and>
           map_of kvs ''trainer_items'' = Some (JArr xs) \<and>
           map_of kvs ''total_filtered_items'' = Some (JInt a) \<and>
           map_of kvs ''per_page_limit'' = Some (JInt b) \<and>
           map_of kvs ''page'' = Some (JInt c)"
proof -
  from assms(2) obtain top where top: "response = JObj top" "map_of top ''review'' = Some rv"
    by (cases response) (simp_all split: option.splits)
  with assms(1) have rv: "is_valid review rv"
    by (simp add: schema_def)
  then have "is_type TObject rv"
    unfolding review_def by (rule is_valid_type)
  then obtain kvs where kvs: "rv = JObj kvs"
    using is_type_object by blast
  note valid = rv[unfolded review_def kvs]
  from is_valid_property[OF valid, of "''trainer_items''" "Schema (Some TArray) [] []"]
  obtain v1 where v1: "map_of kvs ''trainer_items'' = Some v1" "is_type TArray v1"
    by auto
  from is_valid_property[OF valid, of "''total_filtered_items''" "Schema (Some TNumber) [] []"]
  obtain v2 where v2: "map_of kvs ''total_filtered_items'' = Some v2" "is_type TNumber v2"
    by auto
  from is_valid_property[OF valid, of "''per_page_limit''" "Schema (Some TNumber) [] []"]
  obtain v3 where v3: "map_of kvs ''per_page_limit'' = Some v3" "is_type TNumber v3"
    by auto
  from is_valid_property[OF valid, of "''page''" "Schema (Some TNumber) [] []"]
  obtain v4 where v4: "map_of kvs ''page'' = Some v4" "is_type TNumber v4"
    by auto
  from v1(2) v2(2) v3(2) v4(2) obtain xs a b c where
    "v1 = JArr xs" "v2 = JInt a" "v3 = JInt b" "v4 = JInt c"
    using is_type_array is_type_number by metis
  with kvs v1(1) v2(1) v3(1) v4(1) show ?thesis by blast
qed

lemma page_result_count:
  assumes "vocabulary_api r p = Inr response"
      and "is_valid schema response"
      and "getitem response ''review'' = Inr rv"
      and "getitem rv ''total_filtered_items'' = Inr (JInt a)"
      and "getitem rv ''per_page_limit'' = Inr (JInt b)"
      and "b \<noteq> 0" "\<bar>a\<bar> < 2 ^ 53" "\<bar>b\<bar> < 2 ^ 53"
  shows "\<exists>items. page_result r p vocabulary =
           Inr (\<lceil>rat_of_int a / rat_of_int b\<rceil>, vocabulary @ items)"
proof -
  from valid_review[OF assms(2,3)] obtain kvs xs where
    rv: "rv = JObj kvs" "map_of kvs ''trainer_items'' = Some (JArr xs)"
    by blast
  from int_true_divide_ceiling[OF assms(6-8)] obtain y where
    y: "int_true_divide a b = Inr y" "\<lceil>y\<rceil> = \<lceil>rat_of_int a / rat_of_int b\<rceil>"
    by blast
  have "num_pages_of rv = Inr \<lceil>rat_of_int a / rat_of_int b\<rceil>"
    using assms(4,5) y by (simp add: num_pages_of_def truediv_def math_ceil_def)
  then have "page_result r p vocabulary =
      Inr (\<lceil>rat_of_int a / rat_of_int b\<rceil>, vocabulary @ xs)"
    using assms(1-3) rv by (simp add: page_result_def validate_def)
  then show ?thesis by blast
qed

lemma page_result_zero_limit:
  assumes "vocabulary_api r p = Inr response"
      and "is_valid schema response"
      and "getitem response ''review'' = Inr rv"
      and "getitem rv ''per_page_limit'' = Inr (JInt 0)"
  shows "page_result r p vocabulary = Inl ZeroDivisionError"
proof -
  from valid_review[OF assms(2,3)] obtain kvs xs a where
    rv: "rv = JObj kvs" "map_of kvs ''trainer_items'' = Some (JArr xs)"
        "map_of kvs ''total_filtered_items'' = Some (JInt a)"
    by blast
  then have "num_pages_of rv = Inl ZeroDivisionError"
    using assms(4) by (simp add: num_pages_of_def truediv_def int_true_divide_def)
  then show ?thesis
    using assms(1-3) rv by (simp add: page_result_def validate_def)
qed

subsection \<open>The collector\<close>

lemma collector_trace:
  "trace (snd (get_babbel_vocabulary order r w)) =
     trace w @ GetPage 1 #
       (case page_result r 1 [] of Inl e \<Rightarrow> [] | Inr (n, v) \<Rightarrow> map GetPage [2..n])"
  by (simp add: get_babbel_vocabulary_def get_babbel_vocabulary_page_def page_request_def
      split: sum.splits)

lemma collector_frame:
  "csv_file (snd (get_babbel_vocabulary order r w)) = csv_file w \<and>
   media_files (snd (get_babbel_vocabulary order r w)) = media_files w \<and>
   (\<exists>ps. trace (snd (get_babbel_vocabulary order r w)) = trace w @ map GetPage ps)"
proof -
  have "\<exists>ps. trace (snd (get_babbel_vocabulary order r w)) = trace w @ map GetPage ps"
  proof (cases "page_result r 1 []")
    case (Inl e)
    then have "trace (snd (get_babbel_vocabulary order r w)) = trace w @ map GetPage [1]"
      by (simp add: collector_trace)
    then show ?thesis by blast
  next
    case (Inr res)
    then have "trace (snd (get_babbel_vocabulary order r w)) =
        trace w @ map GetPage (1 # [2..fst res])"
      by (simp add: collector_trace split: prod.splits)
    then show ?thesis by blast
  qed
  then show ?thesis
    by (simp add: get_babbel_vocabulary_def get_babbel_vocabulary_page_def page_request_def
        split: sum.splits prod.splits)
qed

text \<open>
  C4, as stated. Every valid page response gives the page count
  \<open>ceil(total_filtered_items / per_page_limit)\<close>. A response with
  \<open>per_page_limit = 0\<close> is valid, and the division raises \<^verbatim>\<open>ZeroDivisionError\<close>;
  and the quotient is a double, so that \<open>2 ^ 53 + 1\<close> entries at one a page give
  \<open>2 ^ 53\<close> pages.
\<close>

theorem page_count_zero_limit_and_huge_total:
  "is_valid schema (page_response [] 95 0 1) \<and>
   page_result remote_zero_limit 1 [] = Inl ZeroDivisionError \<and>
   is_valid schema (page_response [] 9007199254740993 1 1) \<and>
   page_result remote_huge 1 [] = Inr (9007199254740992, []) \<and>
   \<lceil>rat_of_int 9007199254740993 / rat_of_int 1\<rceil> = (9007199254740993 :: int)"
  by code_simp

text \<open>
  C4, amended. For every page response of the required shape whose total and per-page
  limit are integers below \<open>2 ^ 53\<close> in magnitude, the limit not zero, the page count is
  \<open>ceil(total_filtered_items / per_page_limit)\<close>; the collector requests page 1 and then
  each of the pages from 2 to that count once, and no further page when the count is at
  most 1. With 95 entries at 30 a page that is 4 pages and the requests 1, 2, 3, 4.
\<close>

theorem page_count_and_requests:
  assumes "vocabulary_api r p = Inr response"
      and "is_valid schema response"
      and "getitem response ''review'' = Inr rv"
      and "getitem rv ''total_filtered_items'' = Inr (JInt a)"
      and "getitem rv ''per_page_limit'' = Inr (JInt b)"
      and "b \<noteq> 0" "\<bar>a\<bar> < 2 ^ 53" "\<bar>b\<bar> < 2 ^ 53"
  shows "(\<exists>items. page_result r p vocabulary =
            Inr (\<lceil>rat_of_int a / rat_of_int b\<rceil>, vocabulary @ items)) \<and>
         (p = 1 \<longrightarrow>
            trace (snd (get_babbel_vocabulary order r w)) =
              trace w @ map GetPage (1 # [2..\<lceil>rat_of_int a / rat_of_int b\<rceil>]))"
proof (intro conjI impI)
  show "\<exists>items. page_result r p vocabulary =
            Inr (\<lceil>rat_of_int a / rat_of_int b\<rceil>, vocabulary @ items)"
    using assms by (rule page_result_count)
next
  assume "p = 1"
  with page_result_count[OF assms, of "[]"] obtain items where
    "page_result r 1 [] = Inr (\<lceil>rat_of_int a / rat_of_int b\<rceil>, items)"
    by auto
  then show "trace (snd (get_babbel_vocabulary order r w)) =
      trace w @ map GetPage (1 # [2..\<lceil>rat_of_int a / rat_of_int b\<rceil>])"
    by (simp add: collector_trace)
qed

theorem page_count_and_requests_witness:
  "(\<exists>items. page_result remote_95_30 1 [] = Inr (4, items)) \<and>
   trace (snd (get_babbel_vocabulary [] remote_95_30 empty_world)) =
     [GetPage 1, GetPage 2, GetPage 3, GetPage 4]"
proof -
  have valid: "is_valid schema (page_response [] 95 30 1)"
    by (simp add: schema_def review_def page_response_def)
  have count: "\<lceil>rat_of_int 95 / rat_of_int 30\<rceil> = (4::int)"
    by (rule ceiling_unique) simp_all
  have pages: "[2..4::int] = [2, 3, 4]"
    by (simp add: upto.simps)
  have "(\<exists>items. page_result remote_95_30 1 [] = Inr (4, [] @ items)) \<and>
        (1 = (1::int) \<longrightarrow>
           trace (snd (get_babbel_vocabulary [] remote_95_30 empty_world)) =
             trace empty_world @ map GetPage (1 # [2..4]))"
    by (rule page_count_and_requests[where response = "page_response [] 95 30 1"
          and rv = "JObj [(''trainer_items'', JArr []), (''total_filtered_items'', JInt 95),
                          (''per_page_limit'', JInt 30), (''page'', JInt 1)]"
          and a = 95 and b = 30, unfolded count])
       (use valid in \<open>simp_all add: remote_95_30_def page_response_def\<close>)
  then show ?thesis
    by (simp add: pages empty_world_def)
qed

section \<open>Dedup Filter\<close>

lemma existing_ids_of_rows:
  "[] \<notin> set rows \<Longrightarrow> existing_ids_of rows = Inr (map hd rows)"
  by (induction rows rule: existing_ids_of.induct) auto

lemma existing_ids_of_blank:
  "[] \<in> set rows \<Longrightarrow> existing_ids_of rows = Inl IndexError"
  by (induction rows rule: existing_ids_of.induct) (auto split: sum.splits)

lemma select_items_filter:
  "\<forall>e \<in> set vocabulary. entry_id e \<noteq> None \<Longrightarrow>
   select_items ids vocabulary =
     Inr (filter (\<lambda>e. case entry_id e of None \<Rightarrow> True | Some s \<Rightarrow> s \<notin> set ids) vocabulary)"
  by (induction vocabulary) (auto simp: entry_id_def split: sum.splits)

text \<open>
  C2, as stated. For every list of entries and every state of the export file, the
  filter returns the entries whose identifier is not in the first column. It does not
  for a file with a blank line: \<^verbatim>\<open>row[0]\<close> raises \<^verbatim>\<open>IndexError\<close> there.
\<close>

theorem blank_line_raises_IndexError:
  "select_new_vocabulary [JObj [(''id'', JInt 2)]] blank_line_world = Inl IndexError"
  by (simp add: select_new_vocabulary_def blank_line_world_def)

text \<open>
  C2, amended. When no row of the export file is empty and, if the file exists, every
  entry has an identifier, the filter returns exactly the entries whose identifier, as
  text, is not in the first column of the file, in their order; when the file does not
  exist it returns the whole list.
\<close>

theorem select_new_vocabulary_filters:
  assumes "\<forall>rows. csv_file w = Some rows \<longrightarrow> [] \<notin> set rows"
      and "csv_file w \<noteq> None \<longrightarrow> (\<forall>e \<in> set vocabulary. entry_id e \<noteq> None)"
  shows "select_new_vocabulary vocabulary w = Inr (filter (not_exported w) vocabulary) \<and>
         (csv_file w = None \<longrightarrow> select_new_vocabulary vocabulary w = Inr vocabulary)"
proof (cases "csv_file w")
  case None
  then show ?thesis
    by (simp add: select_new_vocabulary_def not_exported_def first_column_def
             split: option.splits)
next
  case (Some rows)
  with assms have "[] \<notin> set rows" "\<forall>e \<in> set vocabulary. entry_id e \<noteq> None" by auto
  moreover have "first_column w = map hd rows" using Some by (simp add: first_column_def)
  then have "not_exported w =
      (\<lambda>e. case entry_id e of None \<Rightarrow> True | Some s \<Rightarrow> s \<notin> set (map hd rows))"
    by (simp add: not_exported_def[abs_def] cong: option.case_cong)
  ultimately show ?thesis
    using Some
    by (simp add: select_new_vocabulary_def existing_ids_of_rows select_items_filter)
qed

theorem select_new_vocabulary_filters_witness:
  "select_new_vocabulary three_entries two_rows_world = Inr [JObj [(''id'', JInt 2)]] \<and>
   select_new_vocabulary three_entries empty_world = Inr three_entries"
  using select_new_vocabulary_filters[of two_rows_world three_entries]
        select_new_vocabulary_filters[of empty_world three_entries]
  by (simp add: two_rows_world_def empty_world_def three_entries_def not_exported_def
      entry_id_def first_column_def str_int_def str_nat.simps)

section \<open>Media Fetcher\<close>

lemma media_start_exists:
  "media_files w (media_path (media_filenames t i)) \<noteq> None \<Longrightarrow>
   media_start i t w = ((media_filenames t i, True), w)"
  by (simp add: media_start_def Let_def)

lemma media_start_absent:
  "media_files w (media_path (media_filenames t i)) = None \<Longrightarrow>
   media_start i t w =
     ((media_filenames t i, False), w\<lparr>trace := trace w @ [GetMedia (media_urls t i)]\<rparr>)"
  by (simp add: media_start_def Let_def)

text \<open>
  C3, as stated. With the local file absent, a response with a status that is not a
  success makes the fetch fail, and the body of the error is not written as the media
  file. The code never looks at the status: for a server that answers 404 the fetch
  succeeds and the file holds the error body.
\<close>

theorem not_found_body_is_written:
  "fst (download_media_item not_found_remote (JInt 7) Image empty_world)
     = Inr (''rus_7.jpg'', False) \<and>
   media_files (snd (download_media_item not_found_remote (JInt 7) Image empty_world))
     (media_path ''rus_7.jpg'') = Some ''Not Found''"
  by (simp add: download_media_item_def media_start_def media_finish_def Let_def
      not_found_remote_def empty_world_def media_filenames_def media_urls_def
      str_int_def str_nat.simps)

text \<open>
  C3, amended. With the local file absent, one request is made. When the network call
  raises, the fetch fails with that error and no file is written. When the call returns
  a response, whatever its status, the body is written to the file and the fetch
  returns the file name with \<open>existed = False\<close>.
\<close>

theorem download_media_item_absent:
  assumes "media_files w (media_path (media_filenames t i)) = None"
  shows "(media_api r (media_urls t i) = Inl e \<longrightarrow>
            download_media_item r i t w =
              (Inl e, w\<lparr>trace := trace w @ [GetMedia (media_urls t i)]\<rparr>)) \<and>
         (media_api r (media_urls t i) = Inr (status, body) \<longrightarrow>
            download_media_item r i t w =
              (Inr (media_filenames t i, False),
               w\<lparr>media_files := (media_files w)(media_path (media_filenames t i) \<mapsto> body),
                 trace := trace w @ [GetMedia (media_urls t i),
                                     WriteMedia (media_path (media_filenames t i))]\<rparr>))"
  using assms
  by (simp add: download_media_item_def media_start_absent media_finish_def Let_def)

theorem download_media_item_absent_witness:
  "download_media_item unreachable_remote (JInt 7) Image empty_world =
     (Inl RequestException,
      empty_world\<lparr>trace := [GetMedia (media_urls Image (JInt 7))]\<rparr>) \<and>
   download_media_item not_found_remote (JInt 7) Image empty_world =
     (Inr (media_filenames Image (JInt 7), False),
      empty_world\<lparr>media_files := [media_path (media_filenames Image (JInt 7)) \<mapsto> ''Not Found''],
                   trace := [GetMedia (media_urls Image (JInt 7)),
                             WriteMedia (media_path (media_filenames Image (JInt 7)))]\<rparr>)"
  using download_media_item_absent[of empty_world Image "JInt 7" unreachable_remote RequestException]
        download_media_item_absent[of empty_world Image "JInt 7" not_found_remote _ 404 "''Not Found''"]
  by (simp add: empty_world_def unreachable_remote_def not_found_remote_def)

lemma media_filenames_inj:
  "media_filenames t1 i1 = media_filenames t2 i2 \<longleftrightarrow> t1 = t2 \<and> py_str i1 = py_str i2"
proof (cases t1; cases t2)
  assume t: "t1 = Image" "t2 = Audio"
  have "media_filenames t1 i1 \<noteq> media_filenames t2 i2"
  proof
    assume "media_filenames t1 i1 = media_filenames t2 i2"
    then have "last (media_filenames t1 i1) = last (media_filenames t2 i2)" by simp
    then show False using t by (simp add: media_filenames_def)
  qed
  then show ?thesis using t by simp
next
  assume t: "t1 = Audio" "t2 = Image"
  have "media_filenames t1 i1 \<noteq> media_filenames t2 i2"
  proof
    assume "media_filenames t1 i1 = media_filenames t2 i2"
    then have "last (media_filenames t1 i1) = last (media_filenames t2 i2)" by simp
    then show False using t by (simp add: media_filenames_def)
  qed
  then show ?thesis using t by simp
qed (simp_all add: media_filenames_def)

text \<open>
  C6, as stated. No two distinct pairs of a kind and an identifier have the same file
  name. The identifier enters the name through \<^verbatim>\<open>format\<close>, so the number 5 and the
  string \<^verbatim>\<open>"5"\<close> give the same name.
\<close>

theorem number_and_string_share_filename:
  "(Image, JInt 5) \<noteq> (Image, JStr ''5'') \<and>
   media_filenames Image (JInt 5) = media_filenames Image (JStr ''5'')"
  by (simp add: media_filenames_def str_int_def str_nat.simps)

text \<open>
  C6, amended. The file name is a function of the kind and of the identifier's text:
  two pairs have the same name exactly when the kinds are equal and the identifiers
  have the same text. When the file exists, the fetch returns the name with
  \<open>existed = True\<close> and leaves the world as it is (no request); so does a second fetch
  for the same pair after a first one that succeeded.
\<close>

theorem media_filename_and_cache:
  "(media_filenames t1 i1 = media_filenames t2 i2 \<longleftrightarrow> t1 = t2 \<and> py_str i1 = py_str i2) \<and>
   (media_files w (media_path (media_filenames t i)) \<noteq> None \<longrightarrow>
      download_media_item r i t w = (Inr (media_filenames t i, True), w)) \<and>
   (download_media_item r i t w = (Inr res, w1) \<longrightarrow>
      download_media_item r i t w1 = (Inr (media_filenames t i, True), w1))"
proof (intro conjI impI)
  show "media_filenames t1 i1 = media_filenames t2 i2 \<longleftrightarrow> t1 = t2 \<and> py_str i1 = py_str i2"
    by (rule media_filenames_inj)
  show cached: "download_media_item r i t w = (Inr (media_filenames t i, True), w)"
    if "media_files w (media_path (media_filenames t i)) \<noteq> None" for w
    using that by (simp add: download_media_item_def media_start_exists)
  show "download_media_item r i t w1 = (Inr (media_filenames t i, True), w1)"
    if first: "download_media_item r i t w = (Inr res, w1)"
  proof -
    have "media_files w1 (media_path (media_filenames t i)) \<noteq> None"
    proof (cases "media_files w (media_path (media_filenames t i)) = None")
      case True
      with first show ?thesis
        by (auto simp: download_media_item_def media_start_absent media_finish_def Let_def
            split: sum.splits prod.splits)
    next
      case False
      with first show ?thesis
        by (auto simp: download_media_item_def media_start_exists)
    qed
    then show ?thesis by (rule cached)
  qed
qed

theorem media_filename_and_cache_witness:
  "media_filenames Image (JInt 7) \<noteq> media_filenames Audio (JInt 7) \<and>
   download_media_item not_found_remote (JInt 7) Image
     (snd (download_media_item not_found_remote (JInt 7) Image empty_world)) =
     (Inr (''rus_7.jpg'', True),
      snd (download_media_item not_found_remote (JInt 7) Image empty_world))"
proof -
  obtain res w1 where first:
    "download_media_item not_found_remote (JInt 7) Image empty_world = (Inr res, w1)"
    by (simp add: download_media_item_def media_start_def media_finish_def Let_def
        not_found_remote_def empty_world_def)
  have name: "media_filenames Image (JInt 7) = ''rus_7.jpg''"
    by (simp add: media_filenames_def str_int_def str_nat.simps)
  from media_filename_and_cache[where ?t1.0 = Image and ?i1.0 = "JInt 7" and ?t2.0 = Audio
      and ?i2.0 = "JInt 7" and t = Image and i = "JInt 7" and r = not_found_remote
      and w = empty_world and res = res and ?w1.0 = w1] first name
  show ?thesis by simp
qed

section \<open>The run\<close>

subsection \<open>The collector resumes its pages in any order\<close>

lemma set_completion_order: "set (completion_order order k) = {..<k}"
  by (auto simp: completion_order_def)

lemma distinct_completion_order: "distinct (completion_order order k)"
  by (auto simp: completion_order_def)

lemma length_completion_order: "length (completion_order order k) = k"
proof -
  have "length (completion_order order k) = card (set (completion_order order k))"
    by (simp add: distinct_card distinct_completion_order)
  then show ?thesis by (simp add: set_completion_order)
qed

lemma set_pages_done_order: "set (pages_done_order order n) = {2..n}"
proof -
  have nth_image: "(\<lambda>i. xs ! i) ` {..<length xs} = set xs" for xs :: "int list"
    by (auto simp: set_conv_nth)
  have "set (pages_done_order order n) = (\<lambda>i. [2..n] ! i) ` {..<length [2..n]}"
    by (simp only: pages_done_order_def Let_def set_map set_completion_order)
  also have "\<dots> = set [2..n]"
    by (rule nth_image)
  finally show ?thesis by simp
qed

lemma complete_pages_Inr:
  "\<forall>p \<in> set ps. \<exists>res. page_result r p [] = Inr res \<Longrightarrow>
   complete_pages r ps v = Inr (v @ concat (map (page_items r) ps))"
proof (induction ps arbitrary: v)
  case Nil
  then show ?case by simp
next
  case (Cons p ps)
  then obtain n xs where p: "page_result r p [] = Inr (n, xs)" by auto
  then have "page_result r p v = Inr (n, v @ xs)"
    by (subst page_result_acc) simp
  moreover have "complete_pages r ps (v @ xs) = Inr ((v @ xs) @ concat (map (page_items r) ps))"
    using Cons.prems by (intro Cons.IH) simp
  moreover have "page_items r p = xs"
    using p by (simp add: page_items_def)
  ultimately show ?case by simp
qed

lemma complete_pages_first_failure:
  assumes "\<forall>q \<in> set pre. \<exists>res. page_result r q [] = Inr res"
      and "page_result r p [] = Inl e"
  shows "complete_pages r (pre @ p # post) v = Inl e"
  using assms(1)
proof (induction pre arbitrary: v)
  case Nil
  have "page_result r p v = Inl e"
    using assms(2) by (subst page_result_acc) simp
  then show ?case by simp
next
  case (Cons q pre)
  then obtain n xs where "page_result r q [] = Inr (n, xs)" by auto
  then have "page_result r q v = Inr (n, v @ xs)"
    by (subst page_result_acc) simp
  then show ?case using Cons by simp
qed

lemma complete_pages_Inl:
  "complete_pages r ps v = Inl e \<Longrightarrow> \<exists>p \<in> set ps. page_result r p [] = Inl e"
proof (induction ps arbitrary: v)
  case Nil
  then show ?case by simp
next
  case (Cons p ps)
  show ?case
  proof (cases "page_result r p [] ")
    case (Inl e')
    then have "page_result r p v = Inl e'" by (subst page_result_acc) simp
    with Cons.prems Inl show ?thesis by simp
  next
    case (Inr res)
    then have "page_result r p v = Inr (fst res, v @ snd res)"
      by (subst page_result_acc) (simp split: prod.splits)
    with Cons.prems have "complete_pages r ps (v @ snd res) = Inl e" by simp
    then show ?thesis using Cons.IH by auto
  qed
qed

lemma complete_pages_fails:
  assumes "p \<in> set ps" and "page_result r p [] = Inl e"
  shows "\<exists>e'. complete_pages r ps v = Inl e'"
proof (cases "complete_pages r ps v")
  case (Inl e')
  then show ?thesis by blast
next
  case (Inr v')
  have "\<forall>q \<in> set ps. \<exists>res. page_result r q [] = Inr res"
  proof (rule ccontr)
    assume "\<not> (\<forall>q \<in> set ps. \<exists>res. page_result r q [] = Inr res)"
    then obtain q where q: "q \<in> set ps" "\<forall>res. page_result r q [] \<noteq> Inr res" by blast
    define pre where "pre = takeWhile (\<lambda>x. \<exists>res. page_result r x [] = Inr res) ps"
    define rest where "rest = dropWhile (\<lambda>x. \<exists>res. page_result r x [] = Inr res) ps"
    have "rest \<noteq> []"
      using q by (auto simp: rest_def dropWhile_eq_Nil_conv)
    then obtain x post where rest: "rest = x # post" by (cases rest) auto
    then have "\<not> (\<exists>res. page_result r x [] = Inr res)"
      using hd_dropWhile[of "\<lambda>x. \<exists>res. page_result r x [] = Inr res" ps]
      by (simp add: rest_def)
    then obtain ex where ex: "page_result r x [] = Inl ex"
      by (cases "page_result r x []") auto
    have "ps = pre @ rest"
      unfolding pre_def rest_def by simp
    then have split: "ps = pre @ x # post"
      using rest by simp
    have "\<forall>q \<in> set pre. \<exists>res. page_result r q [] = Inr res"
      by (auto simp: pre_def dest: set_takeWhileD)
    from complete_pages_first_failure[OF this ex]
    have "complete_pages r ps v = Inl ex" by (simp add: split)
    with Inr show False by simp
  qed
  with assms show ?thesis by auto
qed

subsection \<open>What the run leaves unchanged\<close>

lemma main_collector_failed:
  "fst (get_babbel_vocabulary (page_order sch) r w) = Inl e \<Longrightarrow>
   main sch r w = (Some e, snd (get_babbel_vocabulary (page_order sch) r w))"
  by (cases "get_babbel_vocabulary (page_order sch) r w") (simp add: main_def)

lemma collector_result:
  "fst (get_babbel_vocabulary order r w) =
     (case page_result r 1 [] of
        Inl e \<Rightarrow> Inl e
      | Inr (n, v) \<Rightarrow>
          if 1 < n then complete_pages r (pages_done_order order n) v else Inr v)"
  by (simp add: get_babbel_vocabulary_def get_babbel_vocabulary_page_def split: sum.split)

lemma missing_total_invalid:
  assumes "vocabulary_api r p = Inr response"
      and "getitem response ''review'' = Inr (JObj kvs)"
      and "map_of kvs ''total_filtered_items'' = None"
  shows "page_result r p v = Inl ValidationError"
proof -
  have "\<not> is_valid schema response"
  proof
    assume "is_valid schema response"
    from valid_review[OF this assms(2)] assms(3) show False by auto
  qed
  with assms(1) show ?thesis by (rule page_result_invalid)
qed

text \<open>
  C7. When a page fetch returns a response whose \<^verbatim>\<open>review\<close> object has no
  \<^verbatim>\<open>total_filtered_items\<close>, the run ends with an error and has written nothing: the
  export file and the media directory are as before, and only page requests have been
  made. The error is \<^verbatim>\<open>ValidationError\<close> when that page is page 1 or when every page
  of its batch resumed before it was fetched without error (the first failure of a batch
  is the one that is raised).
\<close>

theorem missing_total_aborts_before_write:
  assumes "vocabulary_api r p = Inr response"
      and "getitem response ''review'' = Inr (JObj kvs)"
      and "map_of kvs ''total_filtered_items'' = None"
      and "p = 1 \<or> (page_result r 1 [] = Inr (n, v) \<and> 2 \<le> p \<and> p \<le> n)"
  shows "fst (main sch r w) \<noteq> None \<and>
         csv_file (snd (main sch r w)) = csv_file w \<and>
         media_files (snd (main sch r w)) = media_files w \<and>
         (\<exists>ps. trace (snd (main sch r w)) = trace w @ map GetPage ps) \<and>
         ((p = 1 \<or> (\<forall>q \<in> set (takeWhile (\<lambda>q. q \<noteq> p) (pages_done_order (page_order sch) n)).
                      \<exists>res. page_result r q [] = Inr res))
            \<longrightarrow> fst (main sch r w) = Some ValidationError)"
proof -
  let ?c = "get_babbel_vocabulary (page_order sch) r w"
  let ?ps = "pages_done_order (page_order sch) n"
  have bad: "page_result r p [] = Inl ValidationError"
    using assms(1-3) by (rule missing_total_invalid)
  have fails: "\<exists>e. fst ?c = Inl e"
  proof (cases "p = 1")
    case True
    with bad show ?thesis by (simp add: collector_result)
  next
    case False
    with assms(4) have first: "page_result r 1 [] = Inr (n, v)" and p: "2 \<le> p" "p \<le> n"
      by auto
    then have "p \<in> set ?ps" by (simp add: set_pages_done_order)
    from complete_pages_fails[OF this bad] first p show ?thesis
      by (simp add: collector_result)
  qed
  then obtain e where e: "fst ?c = Inl e" by blast
  then have m: "main sch r w = (Some e, snd ?c)" by (rule main_collector_failed)
  have kind: "e = ValidationError"
    if "p = 1 \<or> (\<forall>q \<in> set (takeWhile (\<lambda>q. q \<noteq> p) ?ps). \<exists>res. page_result r q [] = Inr res)"
  proof (cases "p = 1")
    case True
    with bad e show ?thesis by (simp add: collector_result)
  next
    case False
    with assms(4) have first: "page_result r 1 [] = Inr (n, v)" and p: "2 \<le> p" "p \<le> n"
      by auto
    from False that have pre:
      "\<forall>q \<in> set (takeWhile (\<lambda>q. q \<noteq> p) ?ps). \<exists>res. page_result r q [] = Inr res"
      by simp
    have "p \<in> set ?ps" using p by (simp add: set_pages_done_order)
    then have "dropWhile (\<lambda>q. q \<noteq> p) ?ps \<noteq> []"
      by (auto simp: dropWhile_eq_Nil_conv)
    then obtain x post where rest: "dropWhile (\<lambda>q. q \<noteq> p) ?ps = x # post"
      by (cases "dropWhile (\<lambda>q. q \<noteq> p) ?ps") auto
    with hd_dropWhile[of "\<lambda>q. q \<noteq> p" ?ps] have "x = p" by simp
    have "?ps = takeWhile (\<lambda>q. q \<noteq> p) ?ps @ dropWhile (\<lambda>q. q \<noteq> p) ?ps"
      by simp
    with rest \<open>x = p\<close> have split: "?ps = takeWhile (\<lambda>q. q \<noteq> p) ?ps @ p # post"
      by simp
    have "complete_pages r ?ps v = Inl ValidationError"
      by (subst split) (rule complete_pages_first_failure[OF pre bad])
    with first p e show ?thesis by (simp add: collector_result)
  qed
  from m kind collector_frame[of "page_order sch" r w] show ?thesis
    by simp
qed

theorem missing_total_aborts_before_write_witness:
  "main pages_3_2_4 remote_bad_page3 exported_world =
     (Some ValidationError,
      exported_world\<lparr>trace := [GetPage 1, GetPage 2, GetPage 3, GetPage 4]\<rparr>)"
proof -
  let ?m = "main pages_3_2_4 remote_bad_page3 exported_world"
  let ?kvs = "[(''trainer_items'', JArr []), (''per_page_limit'', JInt 30), (''page'', JInt 3)]"
  have first: "page_result remote_bad_page3 1 [] = Inr (4, [entry 1])"
    by code_simp
  have order: "pages_done_order (page_order pages_3_2_4) 4 = [3, 2, 4]"
    by code_simp
  have h1: "vocabulary_api remote_bad_page3 3 = Inr (JObj [(''review'', JObj ?kvs)])"
    by (simp add: remote_bad_page3_def)
  have h2: "getitem (JObj [(''review'', JObj ?kvs)]) ''review'' = Inr (JObj ?kvs)"
    by simp
  have h3: "map_of ?kvs ''total_filtered_items'' = None"
    by simp
  have h4: "(3::int) = 1 \<or> (page_result remote_bad_page3 1 [] = Inr (4, [entry 1]) \<and>
      (2::int) \<le> 3 \<and> (3::int) \<le> 4)"
    using first by simp
  from missing_total_aborts_before_write[OF h1 h2 h3 h4, of pages_3_2_4 exported_world]
  have "fst ?m = Some ValidationError \<and> csv_file (snd ?m) = csv_file exported_world \<and>
        media_files (snd ?m) = media_files exported_world"
    by (simp add: order)
  moreover have "trace (snd ?m) = [GetPage 1, GetPage 2, GetPage 3, GetPage 4]"
    by code_simp
  ultimately show ?thesis
    by (cases ?m) (simp add: exported_world_def)
qed

text \<open>
  C10. When the filter returns the empty list, the run ends there without an error:
  the world it leaves is the one the collector left, with the export file and the media
  directory as they were at the start and nothing but page requests in the trace (no
  media request, no media file written, the export file not opened for appending).
\<close>

theorem nothing_new_nothing_written:
  assumes "get_babbel_vocabulary (page_order sch) r w = (Inr vocabulary, w1)"
      and "select_new_vocabulary vocabulary w1 = Inr []"
  shows "main sch r w = (None, w1) \<and>
         csv_file w1 = csv_file w \<and>
         media_files w1 = media_files w \<and>
         (\<exists>ps. trace w1 = trace w @ map GetPage ps)"
  using assms collector_frame[of "page_order sch" r w]
  by (simp add: main_def)

theorem nothing_new_nothing_written_witness:
  "main pages_3_2_4 remote_one_page exported_world =
     (None, exported_world\<lparr>trace := [GetPage 1]\<rparr>)"
proof -
  have "page_result remote_one_page 1 [] = Inr (1, [entry 1])"
    by code_simp
  then have c: "get_babbel_vocabulary (page_order pages_3_2_4) remote_one_page exported_world =
      (Inr [entry 1], exported_world\<lparr>trace := [GetPage 1]\<rparr>)"
    by (simp add: get_babbel_vocabulary_def get_babbel_vocabulary_page_def page_request_def
        exported_world_def)
  have s: "select_new_vocabulary [entry 1] (exported_world\<lparr>trace := [GetPage 1]\<rparr>) = Inr []"
    by (simp add: select_new_vocabulary_def exported_world_def entry_def str_int_def
        str_nat.simps)
  from nothing_new_nothing_written[OF c s] show ?thesis by simp
qed

end
